theory Spec2Isabelle
  imports Main
begin

section \<open>kube2sky: the bridge between the service registry and SkyDNS\<close>

text \<open>
  A shallow embedding of \<^verbatim>\<open>hack/images/dns/kube2sky/kube2sky.go\<close>.  Functions of the
  file keep their names.  What the file imports from other packages (the etcd client,
  the Kubernetes client and API helpers, the SkyDNS message package, \<^verbatim>\<open>encoding/json\<close>)
  is taken as a parameter, so every theorem holds for all implementations of them.
\<close>

subsection \<open>Time, errors and process termination\<close>

text \<open>
  A \<^verbatim>\<open>time.Duration\<close> counts nanoseconds and is signed.  The process clock is the
  monotonic clock of the Go runtime, in nanoseconds since some origin.
\<close>

type_synonym Duration = int

definition Millisecond :: Duration where
  "Millisecond = 1000000"

definition Second :: Duration where
  "Second = 1000 * Millisecond"

text \<open>A Go \<^verbatim>\<open>error\<close> value; \<^verbatim>\<open>nil\<close> is \<open>None\<close> of \<open>error option\<close>.\<close>

datatype error = Err string

text \<open>
  \<^verbatim>\<open>log.Fatalf\<close> ends the process.  Each call site of the file is one constructor:
  line 85 (\<open>MutateTimeout\<close>), line 270 (\<open>UnexpectedError\<close>) and line 290
  (\<open>UnknownEventType\<close>).  A function either returns to its caller or the process died.
\<close>

datatype fatal = MutateTimeout | UnexpectedError | UnknownEventType

datatype outcome = Returned | Died fatal

subsection \<open>Flags\<close>

record flags =
  domain :: string
  etcd_mutation_timeout :: Duration
  etcd_server :: string
  verbose :: bool

definition default_flags :: flags where
  "default_flags =
     \<lparr>domain = ''kubernetes.local'', etcd_mutation_timeout = 10 * Second,
      etcd_server = ''http://127.0.0.1:4001'', verbose = False\<rparr>"

subsection \<open>Services and DNS records\<close>

text \<open>
  The fields of \<^verbatim>\<open>kapi.Service\<close> that the file reads: \<^verbatim>\<open>Name\<close>, \<^verbatim>\<open>Namespace\<close> and
  \<^verbatim>\<open>ResourceVersion\<close> of the object's metadata, \<^verbatim>\<open>Spec.PortalIP\<close> and \<^verbatim>\<open>Spec.Port\<close>.
\<close>

record Service =
  Name :: string
  Namespace :: string
  ResourceVersion :: string
  Spec_PortalIP :: string
  Spec_Port :: int

text \<open>
  The fields of \<^verbatim>\<open>skymsg.Service\<close> that \<^verbatim>\<open>addDNS\<close> sets; every other field of the
  struct keeps its zero value.
\<close>

record skymsg_Service =
  Host :: string
  Port :: int
  Priority :: int
  Weight :: int
  Ttl :: nat

text \<open>
  Library functions that the file calls and does not define: \<^verbatim>\<open>kapi.IsServiceIPSet\<close>,
  \<^verbatim>\<open>json.Marshal\<close> (at type \<^verbatim>\<open>skymsg.Service\<close>) and \<^verbatim>\<open>skymsg.Path\<close>.
\<close>

record libs =
  IsServiceIPSet :: "Service \<Rightarrow> bool"
  Marshal :: "skymsg_Service \<Rightarrow> error + string"
  Path :: "string \<Rightarrow> string"

subsection \<open>The etcd client\<close>

text \<open>
  \<^verbatim>\<open>*etcd.Client\<close> with the two methods the file calls.  A call runs against the state
  \<open>'s\<close> behind the client; it yields the error (or \<^verbatim>\<open>nil\<close>), the time the call took
  and the new state.  \<open>etcd_Set key value ttl\<close> is \<^verbatim>\<open>Set(key, value, ttl)\<close>,
  \<open>etcd_Delete key recursive\<close> is \<^verbatim>\<open>Delete(key, recursive)\<close>.
\<close>

record 's etcd_Client =
  etcd_Set :: "string \<Rightarrow> string \<Rightarrow> nat \<Rightarrow> 's \<Rightarrow> error option \<times> nat \<times> 's"
  etcd_Delete :: "string \<Rightarrow> bool \<Rightarrow> 's \<Rightarrow> error option \<times> nat \<times> 's"

text \<open>
  The world a mutator acts on: the state behind the etcd client and the calls made on
  the client so far, oldest first.
\<close>

datatype etcd_call = SetCall string string nat | DeleteCall string bool

record 's world =
  etcd :: 's
  calls :: "etcd_call list"

text \<open>
  A mutator is the Go closure \<^verbatim>\<open>func() error\<close>: run in a world, it yields its error,
  the time it took and the world it leaves.
\<close>

type_synonym 'w mutator = "'w \<Rightarrow> error option \<times> nat \<times> 'w"

definition removeDNS :: "libs \<Rightarrow> string \<Rightarrow> 's etcd_Client \<Rightarrow> 's world mutator" where
  "removeDNS lb record etcdClient w =
     (case etcd_Delete etcdClient (Path lb record) True (etcd w) of
        (err, d, s') \<Rightarrow>
          (err, d, w\<lparr>etcd := s', calls := calls w @ [DeleteCall (Path lb record) True]\<rparr>))"

definition addDNS :: "libs \<Rightarrow> string \<Rightarrow> Service \<Rightarrow> 's etcd_Client \<Rightarrow> 's world mutator" where
  "addDNS lb record service etcdClient w =
     (if \<not> IsServiceIPSet lb service then (None, 0, w)
      else
        let svc = \<lparr>Host = Spec_PortalIP service, Port = Spec_Port service,
                   Priority = 10, Weight = 10, Ttl = 30\<rparr>
        in case Marshal lb svc of
             Inl err \<Rightarrow> (Some err, 0, w)
           | Inr b \<Rightarrow>
               (case etcd_Set etcdClient (Path lb record) b 0 (etcd w) of
                  (err, d, s') \<Rightarrow>
                    (err, d, w\<lparr>etcd := s', calls := calls w @ [SetCall (Path lb record) b 0]\<rparr>)))"

definition buildNameString :: "string \<Rightarrow> string \<Rightarrow> string \<Rightarrow> string" where
  "buildNameString service namespace domain_name =
     service @ ''.'' @ namespace @ ''.'' @ domain_name @ ''.''"

subsection \<open>Retrying a mutation until a deadline\<close>

text \<open>
  What \<^verbatim>\<open>mutateEtcdOrDie\<close> does is recorded in the process state: the clock, the
  invocations of the mutator with their results and the sleeps, oldest first, and the
  world the mutator acts on.
\<close>

datatype action = Invoked "error option" | Slept Duration

record 'w proc =
  clock :: nat
  actions :: "action list"
  env :: 'w

text \<open>
  \<^verbatim>\<open>time.After(d)\<close> called at instant \<open>t\<close>: the instant from which the channel can be
  received from.  A duration of zero or less fires at once.  \<^verbatim>\<open>time.Sleep(d)\<close> pauses for
  at least \<open>d\<close>; here it pauses for \<open>d\<close>, and any time beyond that counts as time of the
  next invocation.
\<close>

definition time_After :: "Duration \<Rightarrow> nat \<Rightarrow> nat" where
  "time_After d t = t + nat d"

definition time_Sleep :: "Duration \<Rightarrow> 'w proc \<Rightarrow> 'w proc" where
  "time_Sleep d p = p\<lparr>clock := clock p + nat d, actions := actions p @ [Slept d]\<rparr>"

definition delay :: Duration where
  "delay = 50 * Millisecond"

text \<open>
  One run of the mutator inside the process: the clock moves by the time the call took.
\<close>

definition invoke :: "'w mutator \<Rightarrow> 'w proc \<Rightarrow> error option \<times> 'w proc" where
  "invoke mutator p =
     (case mutator (env p) of
        (err, d, w') \<Rightarrow>
          (err, p\<lparr>clock := clock p + d, actions := actions p @ [Invoked err], env := w'\<rparr>))"

text \<open>
  The \<^verbatim>\<open>for { select { ... } }\<close> of \<^verbatim>\<open>mutateEtcdOrDie\<close>; \<open>timeout\<close> is the instant at
  which the timer channel becomes ready.  The \<^verbatim>\<open>select\<close> takes the timer's case when the
  channel is ready and the \<^verbatim>\<open>default\<close> case otherwise.
\<close>

function mutate_loop :: "nat \<Rightarrow> 'w mutator \<Rightarrow> 'w proc \<Rightarrow> outcome \<times> 'w proc" where
  "mutate_loop timeout mutator p =
     (if timeout \<le> clock p then (Died MutateTimeout, p)
      else case invoke mutator p of
             (Some err, p') \<Rightarrow> mutate_loop timeout mutator (time_Sleep delay p')
           | (None, p') \<Rightarrow> (Returned, p'))"
  by pat_completeness auto
termination
  by (relation "measure (\<lambda>(timeout, mutator, p). timeout - clock p)")
     (auto simp: invoke_def time_Sleep_def delay_def Millisecond_def split: prod.splits)

definition mutateEtcdOrDie :: "flags \<Rightarrow> 'w mutator \<Rightarrow> 'w proc \<Rightarrow> outcome \<times> 'w proc" where
  "mutateEtcdOrDie fl mutator p =
     mutate_loop (time_After (etcd_mutation_timeout fl) (clock p)) mutator p"

declare mutate_loop.simps [simp del]

text \<open>
  The process state in which invocation number \<open>n\<close> of the mutator starts (counting from
  0) when every earlier invocation is followed by the sleep and a retry.
\<close>

fun attempt_start :: "'w mutator \<Rightarrow> nat \<Rightarrow> 'w proc \<Rightarrow> 'w proc" where
  "attempt_start mutator 0 p = p"
| "attempt_start mutator (Suc n) p =
     attempt_start mutator n (time_Sleep delay (snd (invoke mutator p)))"

subsection \<open>Applying updates\<close>

datatype operation = SetServices | AddService | RemoveService

record serviceUpdate =
  Services :: "Service list"
  Op :: operation

text \<open>
  The closures that \<^verbatim>\<open>watchOnce\<close> hands to \<^verbatim>\<open>mutateEtcdOrDie\<close> for one service \<open>s\<close>
  (lines 163 to 165 and 169 to 171).
\<close>

definition add_mutator :: "flags \<Rightarrow> libs \<Rightarrow> 's etcd_Client \<Rightarrow> Service \<Rightarrow> 's world mutator" where
  "add_mutator fl lb etcdClient s =
     addDNS lb (buildNameString (Name s) (Namespace s) (domain fl)) s etcdClient"

definition remove_mutator :: "flags \<Rightarrow> libs \<Rightarrow> 's etcd_Client \<Rightarrow> Service \<Rightarrow> 's world mutator" where
  "remove_mutator fl lb etcdClient s =
     removeDNS lb (buildNameString (Name s) (Namespace s) (domain fl)) etcdClient"

text \<open>\<^verbatim>\<open>for i := range ev.Services\<close>: one \<^verbatim>\<open>mutateEtcdOrDie\<close> for each service, in order.\<close>

fun mutate_each ::
  "flags \<Rightarrow> (Service \<Rightarrow> 'w mutator) \<Rightarrow> Service list \<Rightarrow> 'w proc \<Rightarrow> outcome \<times> 'w proc" where
  "mutate_each fl f [] p = (Returned, p)"
| "mutate_each fl f (s # ss) p =
     (case mutateEtcdOrDie fl (f s) p of
        (Returned, p') \<Rightarrow> mutate_each fl f ss p'
      | (Died x, p') \<Rightarrow> (Died x, p'))"

text \<open>The body of \<^verbatim>\<open>for ev := range updates\<close>: the \<^verbatim>\<open>switch ev.Op\<close>.\<close>

definition handle_update ::
  "flags \<Rightarrow> libs \<Rightarrow> 's etcd_Client \<Rightarrow> serviceUpdate \<Rightarrow> 's world proc \<Rightarrow> outcome \<times> 's world proc" where
  "handle_update fl lb etcdClient ev p =
     (case Op ev of
        SetServices \<Rightarrow> mutate_each fl (add_mutator fl lb etcdClient) (Services ev) p
      | AddService \<Rightarrow> mutate_each fl (add_mutator fl lb etcdClient) (Services ev) p
      | RemoveService \<Rightarrow> mutate_each fl (remove_mutator fl lb etcdClient) (Services ev) p)"

fun range_updates ::
  "flags \<Rightarrow> libs \<Rightarrow> 's etcd_Client \<Rightarrow> serviceUpdate list \<Rightarrow> 's world proc \<Rightarrow> outcome \<times> 's world proc" where
  "range_updates fl lb etcdClient [] p = (Returned, p)"
| "range_updates fl lb etcdClient (ev # evs) p =
     (case handle_update fl lb etcdClient ev p of
        (Returned, p') \<Rightarrow> range_updates fl lb etcdClient evs p'
      | (Died x, p') \<Rightarrow> (Died x, p'))"

subsection \<open>The registry and the watch session\<close>

text \<open>
  \<^verbatim>\<open>kwatch.EventType\<close> is a string type; the package declares four values of it.
\<close>

type_synonym EventType = string

definition kwatch_Added :: EventType where
  "kwatch_Added = ''ADDED''"

definition kwatch_Modified :: EventType where
  "kwatch_Modified = ''MODIFIED''"

definition kwatch_Deleted :: EventType where
  "kwatch_Deleted = ''DELETED''"

definition kwatch_Error :: EventType where
  "kwatch_Error = ''ERROR''"

text \<open>
  The dynamic type of \<^verbatim>\<open>event.Object\<close>, as the two type assertions of \<^verbatim>\<open>watchLoop\<close> see
  it: a \<^verbatim>\<open>*kapi.Status\<close>, a \<^verbatim>\<open>*kapi.Service\<close>, or anything else (named by its type).
\<close>

datatype Status = Status string

datatype Object = StatusObject Status | ServiceObject Service | OtherObject string

record Event =
  Type :: EventType
  Object :: Object

record ServiceList =
  List_ResourceVersion :: string
  Items :: "Service list"

text \<open>
  The interface \<^verbatim>\<open>servicesWatcher\<close> over a registry in state \<open>'r\<close>.  The selectors are
  the constant \<^verbatim>\<open>Everything()\<close> at both call sites and are left out.  The channel of a
  watch is the sequence of events it delivers before it is closed.
\<close>

record 'r servicesWatcher =
  svc_List :: "'r \<Rightarrow> (error + ServiceList) \<times> 'r"
  svc_Watch :: "string \<Rightarrow> 'r \<Rightarrow> (error + Event list) \<times> 'r"

text \<open>
  What a session has done: the value of \<^verbatim>\<open>*resourceVersion\<close>, the updates sent on the
  channel (oldest first), whether \<^verbatim>\<open>close(updates)\<close> has run, and the calls made on the
  registry: a list with the version it returned (\<open>None\<close> when it failed) and a watch
  with the version it was given.
\<close>

datatype registry_call = ListCall "string option" | WatchCall string

record session =
  resourceVersion :: string
  updates :: "serviceUpdate list"
  closed :: bool
  registry_calls :: "registry_call list"

definition send :: "serviceUpdate \<Rightarrow> session \<Rightarrow> session" where
  "send u ss = ss\<lparr>updates := updates ss @ [u]\<rparr>"

definition called :: "registry_call \<Rightarrow> session \<Rightarrow> session" where
  "called c ss = ss\<lparr>registry_calls := registry_calls ss @ [c]\<rparr>"

definition close_updates :: "session \<Rightarrow> session" where
  "close_updates ss = ss\<lparr>closed := True\<rparr>"

definition sendUpdate :: "Event \<Rightarrow> Service \<Rightarrow> session \<Rightarrow> outcome \<times> session" where
  "sendUpdate event service ss =
     (let ss' = ss\<lparr>resourceVersion := ResourceVersion service\<rparr>
      in if Type event = kwatch_Added \<or> Type event = kwatch_Modified
         then (Returned, send \<lparr>Services = [service], Op = AddService\<rparr> ss')
         else if Type event = kwatch_Deleted
         then (Returned, send \<lparr>Services = [service], Op = RemoveService\<rparr> ss')
         else (Died UnknownEventType, ss'))"

text \<open>
  One turn of the \<^verbatim>\<open>for { select { ... } }\<close> of \<^verbatim>\<open>watchLoop\<close> on a received event: the
  loop goes on (\<open>Next\<close>), or the function is left by \<^verbatim>\<open>return\<close> or by \<^verbatim>\<open>log.Fatalf\<close>
  (\<open>Stop\<close>).
\<close>

datatype step = Next session | Stop outcome session

definition watch_event :: "Event \<Rightarrow> session \<Rightarrow> step" where
  "watch_event event ss =
     (if Type event = kwatch_Error
      then (case Object event of
              StatusObject status \<Rightarrow> Stop Returned ss
            | _ \<Rightarrow> Stop (Died UnexpectedError) ss)
      else (case Object event of
              ServiceObject service \<Rightarrow>
                (case sendUpdate event service ss of
                   (Returned, ss') \<Rightarrow> Next ss'
                 | (Died x, ss') \<Rightarrow> Stop (Died x) ss')
            | _ \<Rightarrow> Next ss))"

text \<open>The loop over the channel \<open>ch\<close>; the empty channel is the closed one.\<close>

fun watch_events :: "Event list \<Rightarrow> session \<Rightarrow> outcome \<times> session" where
  "watch_events [] ss = (Returned, ss)"
| "watch_events (event # ch) ss =
     (case watch_event event ss of
        Next ss' \<Rightarrow> watch_events ch ss'
      | Stop out ss' \<Rightarrow> (out, ss'))"

text \<open>
  \<^verbatim>\<open>watchLoop\<close>.  The deferred \<^verbatim>\<open>close(updates)\<close> runs when the function returns; it does
  not run when \<^verbatim>\<open>log.Fatalf\<close> ends the process.
\<close>

definition list_services :: "'r servicesWatcher \<Rightarrow> session \<Rightarrow> 'r \<Rightarrow> (session + session) \<times> 'r" where
  "list_services svcWatcher ss r =
     (if length (resourceVersion ss) = 0
      then (case svc_List svcWatcher r of
              (Inl err, r') \<Rightarrow> (Inl (called (ListCall None) ss), r')
            | (Inr services, r') \<Rightarrow>
                (Inr (send \<lparr>Services = Items services, Op = SetServices\<rparr>
                        ((called (ListCall (Some (List_ResourceVersion services))) ss)
                           \<lparr>resourceVersion := List_ResourceVersion services\<rparr>)), r'))
      else (Inr ss, r))"

definition watchLoop :: "'r servicesWatcher \<Rightarrow> session \<Rightarrow> 'r \<Rightarrow> outcome \<times> session \<times> 'r" where
  "watchLoop svcWatcher ss r =
     (case list_services svcWatcher ss r of
        (Inl ss1, r1) \<Rightarrow> (Returned, close_updates ss1, r1)
      | (Inr ss1, r1) \<Rightarrow>
          (case svc_Watch svcWatcher (resourceVersion ss1) r1 of
             (Inl err, r2) \<Rightarrow>
               (Returned, close_updates (called (WatchCall (resourceVersion ss1)) ss1), r2)
           | (Inr ch, r2) \<Rightarrow>
               (case watch_events ch (called (WatchCall (resourceVersion ss1)) ss1) of
                  (Returned, ss2) \<Rightarrow> (Returned, close_updates ss2, r2)
                | (Died x, ss2) \<Rightarrow> (Died x, ss2, r2))))"

text \<open>
  \<^verbatim>\<open>startWatching\<close>: a new variable \<^verbatim>\<open>serviceVersion := ""\<close>, and \<^verbatim>\<open>watchLoop\<close> on it and
  on the channel that \<^verbatim>\<open>watchOnce\<close> has just made.
\<close>

definition new_session :: session where
  "new_session = \<lparr>resourceVersion = [], updates = [], closed = False, registry_calls = []\<rparr>"

definition startWatching :: "'r servicesWatcher \<Rightarrow> 'r \<Rightarrow> outcome \<times> session \<times> 'r" where
  "startWatching watcher r = watchLoop watcher new_session r"

text \<open>
  \<^verbatim>\<open>watchOnce\<close>, with the producer run before the consumer: the updates of the session
  are applied in the order they were sent.  The process dies when a mutation dies or
  when the session died.
\<close>

definition watchOnce ::
  "flags \<Rightarrow> libs \<Rightarrow> 's etcd_Client \<Rightarrow> 'r servicesWatcher \<Rightarrow> 's world proc \<times> 'r \<Rightarrow>
     outcome \<times> session \<times> 's world proc \<times> 'r" where
  "watchOnce fl lb etcdClient kubeClient st =
     (case st of (p, r) \<Rightarrow>
        (case startWatching kubeClient r of
           (out, ss, r') \<Rightarrow>
             (case range_updates fl lb etcdClient (updates ss) p of
                (Returned, p') \<Rightarrow> (out, ss, p', r')
              | (Died x, p') \<Rightarrow> (Died x, ss, p', r'))))"

text \<open>
  The \<^verbatim>\<open>for { watchOnce(...) }\<close> of \<^verbatim>\<open>main\<close>, cut after \<open>n\<close> sessions: the sessions that
  ran, and \<open>Returned\<close> when the process is still alive after them.
\<close>

fun main_loop ::
  "flags \<Rightarrow> libs \<Rightarrow> 's etcd_Client \<Rightarrow> 'r servicesWatcher \<Rightarrow> nat \<Rightarrow> 's world proc \<times> 'r \<Rightarrow>
     session list \<times> outcome \<times> 's world proc \<times> 'r" where
  "main_loop fl lb etcdClient kubeClient 0 st = ([], Returned, st)"
| "main_loop fl lb etcdClient kubeClient (Suc n) st =
     (case watchOnce fl lb etcdClient kubeClient st of
        (Returned, ss, st') \<Rightarrow>
          (case main_loop fl lb etcdClient kubeClient n st' of
             (sss, rest) \<Rightarrow> (ss # sss, rest))
      | (Died x, ss, st') \<Rightarrow> ([ss], Died x, st'))"

text \<open>The values of the resumption token after each event of a channel that the loop reads.\<close>

fun token_history :: "Event list \<Rightarrow> session \<Rightarrow> string list" where
  "token_history [] ss = []"
| "token_history (event # ch) ss =
     (case watch_event event ss of
        Next ss' \<Rightarrow> resourceVersion ss' # token_history ch ss'
      | Stop out ss' \<Rightarrow> [resourceVersion ss'])"

text \<open>
  The versions of the service entities that the events of a channel carry; an event of
  type \<^verbatim>\<open>Error\<close> carries none.
\<close>

fun event_versions :: "Event list \<Rightarrow> string list" where
  "event_versions [] = []"
| "event_versions (event # ch) =
     (case Object event of
        ServiceObject service \<Rightarrow>
          (if Type event = kwatch_Error then event_versions ch
           else ResourceVersion service # event_versions ch)
      | _ \<Rightarrow> event_versions ch)"

text \<open>The number of invocations of the mutator among some actions.\<close>

definition invocations :: "action list \<Rightarrow> nat" where
  "invocations as = length (filter (\<lambda>a. case a of Invoked err \<Rightarrow> True | Slept d \<Rightarrow> False) as)"

section \<open>Values for the closed examples\<close>

text \<open>
  A mutator over a counter of its own invocations: it fails while the counter is below
  \<open>n\<close>, and each invocation takes \<open>d\<close> nanoseconds.
\<close>

definition flaky :: "nat \<Rightarrow> nat \<Rightarrow> nat mutator" where
  "flaky n d k = (if k < n then Some (Err ''etcd unavailable'') else None, d, Suc k)"

definition broken :: "nat mutator" where
  "broken k = (Some (Err ''etcd unavailable''), 0, Suc k)"

definition proc0 :: "'w \<Rightarrow> 'w proc" where
  "proc0 w = \<lparr>clock = 0, actions = [], env = w\<rparr>"

text \<open>
  One implementation of the library parameters.  A service has its IP set when the
  portal IP is neither empty nor \<^verbatim>\<open>None\<close>; the encoding writes the five fields as a JSON
  object; the path of a name is \<^verbatim>\<open>/skydns\<close> followed by the labels of the name, last
  label first.
\<close>

fun decimal :: "nat \<Rightarrow> string" where
  "decimal n =
     (if n < 10 then [char_of (48 + n)]
      else decimal (n div 10) @ [char_of (48 + n mod 10)])"

declare decimal.simps [simp del]

definition json_int :: "int \<Rightarrow> string" where
  "json_int i = (if i < 0 then ''-'' @ decimal (nat (- i)) else decimal (nat i))"

definition quoted :: "string \<Rightarrow> string" where
  "quoted s = [CHR 0x22] @ s @ [CHR 0x22]"

definition json_Service :: "skymsg_Service \<Rightarrow> string" where
  "json_Service svc =
     ''{'' @ quoted ''host'' @ '':'' @ quoted (Host svc)
       @ '','' @ quoted ''port'' @ '':'' @ json_int (Port svc)
       @ '','' @ quoted ''priority'' @ '':'' @ json_int (Priority svc)
       @ '','' @ quoted ''weight'' @ '':'' @ json_int (Weight svc)
       @ '','' @ quoted ''ttl'' @ '':'' @ decimal (Ttl svc) @ ''}''"

fun split_dot :: "string \<Rightarrow> string list" where
  "split_dot [] = [[]]"
| "split_dot (c # cs) =
     (if c = CHR ''.'' then [] # split_dot cs
      else (case split_dot cs of l # ls \<Rightarrow> (c # l) # ls | [] \<Rightarrow> [[c]]))"

definition skydns_path :: "string \<Rightarrow> string" where
  "skydns_path s =
     ''/skydns'' @ concat (map (\<lambda>l. ''/'' @ l) (rev (filter (\<lambda>l. l \<noteq> []) (split_dot s))))"

definition example_libs :: libs where
  "example_libs =
     \<lparr>IsServiceIPSet = (\<lambda>s. Spec_PortalIP s \<noteq> ''None'' \<and> Spec_PortalIP s \<noteq> ''''),
      Marshal = (\<lambda>svc. Inr (json_Service svc)),
      Path = skydns_path\<rparr>"

text \<open>
  An etcd client over a map from keys to values; every call takes a millisecond.
  \<^verbatim>\<open>Delete\<close> of a key that is not there reports an error, as the version 2 API of etcd
  does (error code 100, key not found).
\<close>

definition kv_client :: "(string \<rightharpoonup> string) etcd_Client" where
  "kv_client =
     \<lparr>etcd_Set = (\<lambda>key val ttl s. (None, 1000000, s(key \<mapsto> val))),
      etcd_Delete = (\<lambda>key recursive s.
        (case s key of
           None \<Rightarrow> (Some (Err ''100: Key not found''), 1000000, s)
         | Some v \<Rightarrow> (None, 1000000, s(key := None))))\<rparr>"

definition example_service :: Service where
  "example_service =
     \<lparr>Name = ''a'', Namespace = ''default'', ResourceVersion = ''7'',
      Spec_PortalIP = ''10.0.0.5'', Spec_Port = 80\<rparr>"

definition headless_service :: Service where
  "headless_service =
     \<lparr>Name = ''h'', Namespace = ''default'', ResourceVersion = ''8'',
      Spec_PortalIP = ''None'', Spec_Port = 80\<rparr>"

definition cluster_flags :: flags where
  "cluster_flags = default_flags\<lparr>domain := ''cluster.local''\<rparr>"

definition empty_world :: "(string \<rightharpoonup> string) world" where
  "empty_world = \<lparr>etcd = Map.empty, calls = []\<rparr>"

definition short_flags :: flags where
  "short_flags = default_flags\<lparr>etcd_mutation_timeout := 100 * Millisecond\<rparr>"

text \<open>The key of the example service's record, and a world that holds the record.\<close>

definition example_key :: string where
  "example_key =
     Path example_libs
       (buildNameString (Name example_service) (Namespace example_service) (domain cluster_flags))"

definition recorded_world :: "(string \<rightharpoonup> string) world" where
  "recorded_world =
     \<lparr>etcd = [example_key \<mapsto>
               json_Service \<lparr>Host = ''10.0.0.5'', Port = 80, Priority = 10, Weight = 10, Ttl = 30\<rparr>],
      calls = []\<rparr>"

definition remove_example :: serviceUpdate where
  "remove_example = \<lparr>Services = [example_service], Op = RemoveService\<rparr>"

text \<open>
  A registry that counts the lists it has served.  Every list returns the example
  service at version 7; every watch delivers a change of the service, then an error
  with a status, then a deletion that is never read.
\<close>

definition example_registry :: "nat servicesWatcher" where
  "example_registry =
     \<lparr>svc_List = (\<lambda>r. (Inr \<lparr>List_ResourceVersion = ''7'', Items = [example_service]\<rparr>, Suc r)),
      svc_Watch = (\<lambda>v r.
        (Inr [\<lparr>Type = kwatch_Modified,
                Object = ServiceObject (example_service\<lparr>ResourceVersion := ''8''\<rparr>)\<rparr>,
              \<lparr>Type = kwatch_Error, Object = StatusObject (Status ''410 Gone'')\<rparr>,
              \<lparr>Type = kwatch_Deleted,
                Object = ServiceObject (example_service\<lparr>ResourceVersion := ''9''\<rparr>)\<rparr>], r))\<rparr>"

text \<open>A reading of versions as decimal numbers.\<close>

definition parse_version :: "string \<Rightarrow> nat" where
  "parse_version s = foldl (\<lambda>n c. 10 * n + (of_char c - 48)) 0 s"

section \<open>Properties of the retry loop\<close>

lemma clock_invoke: "clock p \<le> clock (snd (invoke m p))"
  by (simp add: invoke_def split: prod.splits)

lemma fst_invoke: "fst (invoke m p) = fst (m (env p))"
  by (simp add: invoke_def split: prod.splits)

lemma clock_time_Sleep: "clock (time_Sleep d p) = clock p + nat d"
  by (simp add: time_Sleep_def)

lemma env_time_Sleep: "env (time_Sleep d p) = env p"
  by (simp add: time_Sleep_def)

lemma clock_attempt_start: "clock p \<le> clock (attempt_start m n p)"
proof (induction n arbitrary: p)
  case 0
  show ?case by simp
next
  case (Suc n)
  have "clock p \<le> clock (snd (invoke m p))" by (rule clock_invoke)
  also have "\<dots> \<le> clock (time_Sleep delay (snd (invoke m p)))" by (simp add: clock_time_Sleep)
  also have "\<dots> \<le> clock (attempt_start m n (time_Sleep delay (snd (invoke m p))))" by (rule Suc.IH)
  finally show ?case by simp
qed

lemma mutate_loop_expired: "timeout \<le> clock p \<Longrightarrow> mutate_loop timeout m p = (Died MutateTimeout, p)"
  by (simp add: mutate_loop.simps)

lemma mutate_loop_success:
  "clock p < timeout \<Longrightarrow> fst (m (env p)) = None \<Longrightarrow> mutate_loop timeout m p = (Returned, snd (invoke m p))"
  by (subst mutate_loop.simps) (auto simp add: invoke_def split: prod.splits option.splits)

lemma mutate_loop_failure:
  "clock p < timeout \<Longrightarrow> fst (m (env p)) \<noteq> None \<Longrightarrow>
   mutate_loop timeout m p = mutate_loop timeout m (time_Sleep delay (snd (invoke m p)))"
  by (subst mutate_loop.simps) (auto simp add: invoke_def split: prod.splits option.splits)

lemma mutate_loop_retry:
  assumes "\<forall>i<n. fst (m (env (attempt_start m i p))) \<noteq> None"
    and "fst (m (env (attempt_start m n p))) = None"
    and "clock (attempt_start m n p) < timeout"
  shows "mutate_loop timeout m p = (Returned, snd (invoke m (attempt_start m n p)))"
  using assms
proof (induction n arbitrary: p)
  case 0
  then show ?case by (simp add: mutate_loop_success)
next
  case (Suc n)
  let ?q = "time_Sleep delay (snd (invoke m p))"
  have lt: "clock p < timeout"
    using clock_attempt_start[of p m "Suc n"] Suc.prems(3) by simp
  have fail: "fst (m (env p)) \<noteq> None"
    using Suc.prems(1) by (auto dest: spec[of _ 0])
  have "\<forall>i<n. fst (m (env (attempt_start m i ?q))) \<noteq> None"
    using Suc.prems(1) by (auto dest: spec[of _ "Suc i" for i])
  then have "mutate_loop timeout m ?q = (Returned, snd (invoke m (attempt_start m n ?q)))"
    using Suc.prems(2,3) by (intro Suc.IH) simp_all
  then show ?case
    using mutate_loop_failure[of p timeout m] lt fail by simp
qed

lemma mutate_loop_give_up:
  assumes "\<forall>i<n. fst (m (env (attempt_start m i p))) \<noteq> None"
    and "\<forall>i<n. clock (attempt_start m i p) < timeout"
    and "timeout \<le> clock (attempt_start m n p)"
  shows "mutate_loop timeout m p = (Died MutateTimeout, attempt_start m n p)"
  using assms
proof (induction n arbitrary: p)
  case 0
  then show ?case by (simp add: mutate_loop_expired)
next
  case (Suc n)
  let ?q = "time_Sleep delay (snd (invoke m p))"
  have lt: "clock p < timeout"
    using Suc.prems(2) by (auto dest: spec[of _ 0])
  have fail: "fst (m (env p)) \<noteq> None"
    using Suc.prems(1) by (auto dest: spec[of _ 0])
  have a: "\<forall>i<n. fst (m (env (attempt_start m i ?q))) \<noteq> None"
    using Suc.prems(1) by (auto dest: spec[of _ "Suc i" for i])
  have b: "\<forall>i<n. clock (attempt_start m i ?q) < timeout"
    using Suc.prems(2) by (auto dest: spec[of _ "Suc i" for i])
  have "mutate_loop timeout m ?q = (Died MutateTimeout, attempt_start m n ?q)"
    using a b Suc.prems(3) by (intro Suc.IH) simp_all
  then show ?case
    using mutate_loop_failure[of p timeout m] lt fail by simp
qed

lemma mutate_loop_never_succeeds:
  "I (env p) \<Longrightarrow> (\<forall>w. I w \<longrightarrow> fst (m w) \<noteq> None \<and> I (snd (snd (m w)))) \<Longrightarrow>
     fst (mutate_loop timeout m p) = Died MutateTimeout
     \<and> timeout \<le> clock (snd (mutate_loop timeout m p))
     \<and> I (env (snd (mutate_loop timeout m p)))"
proof (induction timeout m p rule: mutate_loop.induct)
  case (1 timeout mutator p)
  show ?case
  proof (cases "timeout \<le> clock p")
    case True
    then show ?thesis using "1.prems" by (simp add: mutate_loop_expired)
  next
    case False
    then have lt: "clock p < timeout" by simp
    from "1.prems" have fail: "fst (mutator (env p)) \<noteq> None"
      and inv: "I (snd (snd (mutator (env p))))" by simp_all
    obtain err p' where inv_eq: "invoke mutator p = (Some err, p')"
      using fail by (cases "invoke mutator p") (auto simp: invoke_def split: prod.splits)
    have "env p' = snd (snd (mutator (env p)))"
      using inv_eq by (auto simp: invoke_def split: prod.splits)
    with inv have "I (env (time_Sleep delay p'))" by (simp add: env_time_Sleep)
    from "1.IH"[OF False inv_eq[symmetric] refl this "1.prems"(2)]
    show ?thesis using mutate_loop_failure[of p timeout mutator] lt fail inv_eq by simp
  qed
qed

lemma clock_attempt_start_lower: "clock p + n * nat delay \<le> clock (attempt_start m n p)"
proof (induction n arbitrary: p)
  case 0
  show ?case by simp
next
  case (Suc n)
  let ?q = "time_Sleep delay (snd (invoke m p))"
  have "clock p + nat delay \<le> clock ?q"
    using clock_invoke[of p m] by (simp add: clock_time_Sleep)
  moreover have "clock ?q + n * nat delay \<le> clock (attempt_start m n ?q)"
    by (rule Suc.IH)
  ultimately show ?case by simp
qed

lemma actions_invoke: "actions (snd (invoke m p)) = actions p @ [Invoked (fst (m (env p)))]"
  by (simp add: invoke_def split: prod.splits)

lemma actions_attempt_start:
  "\<forall>i<n. fst (m (env (attempt_start m i p))) \<noteq> None \<Longrightarrow>
   \<exists>errs. length errs = n \<and>
     actions (attempt_start m n p) =
       actions p @ concat (map (\<lambda>e. [Invoked (Some e), Slept delay]) errs)"
proof (induction n arbitrary: p)
  case 0
  show ?case by simp
next
  case (Suc n)
  let ?q = "time_Sleep delay (snd (invoke m p))"
  from Suc.prems obtain e where e: "fst (m (env p)) = Some e"
    by (auto dest: spec[of _ 0])
  have "\<forall>i<n. fst (m (env (attempt_start m i ?q))) \<noteq> None"
    using Suc.prems by (auto dest: spec[of _ "Suc i" for i])
  from Suc.IH[OF this] obtain errs where errs: "length errs = n"
    "actions (attempt_start m n ?q) =
       actions ?q @ concat (map (\<lambda>e. [Invoked (Some e), Slept delay]) errs)"
    by blast
  have "actions ?q = actions p @ [Invoked (Some e), Slept delay]"
    by (simp add: time_Sleep_def actions_invoke e)
  with errs have "length (e # errs) = Suc n \<and>
     actions (attempt_start m (Suc n) p) =
       actions p @ concat (map (\<lambda>e. [Invoked (Some e), Slept delay]) (e # errs))"
    by simp
  then show ?case by blast
qed

lemma mutate_loop_cases:
  "\<exists>n. (\<forall>i<n. fst (m (env (attempt_start m i p))) \<noteq> None \<and> clock (attempt_start m i p) < timeout) \<and>
     (if timeout \<le> clock (attempt_start m n p)
      then mutate_loop timeout m p = (Died MutateTimeout, attempt_start m n p)
      else fst (m (env (attempt_start m n p))) = None \<and>
           mutate_loop timeout m p = (Returned, snd (invoke m (attempt_start m n p))))"
proof (induction timeout m p rule: mutate_loop.induct)
  case (1 timeout mutator p)
  let ?q = "time_Sleep delay (snd (invoke mutator p))"
  let ?P = "\<lambda>n p. (\<forall>i<n. fst (mutator (env (attempt_start mutator i p))) \<noteq> None \<and> clock (attempt_start mutator i p) < timeout) \<and>
     (if timeout \<le> clock (attempt_start mutator n p)
      then mutate_loop timeout mutator p = (Died MutateTimeout, attempt_start mutator n p)
      else fst (mutator (env (attempt_start mutator n p))) = None \<and>
           mutate_loop timeout mutator p = (Returned, snd (invoke mutator (attempt_start mutator n p))))"
  consider (expired) "timeout \<le> clock p"
    | (ok) "clock p < timeout" "fst (mutator (env p)) = None"
    | (failed) "clock p < timeout" "fst (mutator (env p)) \<noteq> None"
    by force
  then show ?case
  proof cases
    case expired
    then have "?P 0 p" by (simp add: mutate_loop_expired)
    then show ?thesis by blast
  next
    case ok
    then have "?P 0 p" by (simp add: mutate_loop_success)
    then show ?thesis by blast
  next
    case failed
    obtain err p' where inv_eq: "invoke mutator p = (Some err, p')"
      using failed(2) by (cases "invoke mutator p") (auto simp: invoke_def split: prod.splits)
    from "1.IH"[OF _ inv_eq[symmetric] refl] failed(1)
    obtain n where n: "?P n (time_Sleep delay p')" by auto
    have q: "?q = time_Sleep delay p'" using inv_eq by simp
    have step: "mutate_loop timeout mutator p = mutate_loop timeout mutator ?q"
      using mutate_loop_failure[of p timeout mutator] failed by simp
    have "\<forall>i<Suc n. fst (mutator (env (attempt_start mutator i p))) \<noteq> None \<and> clock (attempt_start mutator i p) < timeout"
    proof (intro allI impI)
      fix i assume "i < Suc n"
      show "fst (mutator (env (attempt_start mutator i p))) \<noteq> None \<and> clock (attempt_start mutator i p) < timeout"
      proof (cases i)
        case 0
        then show ?thesis using failed by simp
      next
        case (Suc j)
        with \<open>i < Suc n\<close> have "j < n" by simp
        with n show ?thesis unfolding Suc by (simp add: q)
      qed
    qed
    with n have "?P (Suc n) p" by (simp add: q step)
    then show ?thesis by blast
  qed
qed

lemma invocations_append: "invocations (xs @ ys) = invocations xs + invocations ys"
  by (simp add: invocations_def)

lemma invocations_retries:
  "invocations (concat (map (\<lambda>e. [Invoked (Some e), Slept d]) errs)) = length errs"
  by (induction errs) (simp_all add: invocations_def)

section \<open>Properties of the watch session\<close>

lemma sendUpdate_token: "resourceVersion (snd (sendUpdate event service ss)) = ResourceVersion service"
  by (simp add: sendUpdate_def send_def Let_def)

lemma watch_event_skip:
  "Type event \<noteq> kwatch_Error \<Longrightarrow> \<forall>service. Object event \<noteq> ServiceObject service \<Longrightarrow>
   watch_event event ss = Next ss"
  by (cases "Object event") (simp_all add: watch_event_def)

lemma watch_event_status:
  "Type event = kwatch_Error \<Longrightarrow> Object event = StatusObject status \<Longrightarrow>
   watch_event event ss = Stop Returned ss"
  by (simp add: watch_event_def)

lemma watch_event_unexpected:
  "Type event = kwatch_Error \<Longrightarrow> \<forall>status. Object event \<noteq> StatusObject status \<Longrightarrow>
   watch_event event ss = Stop (Died UnexpectedError) ss"
  by (cases "Object event") (simp_all add: watch_event_def)

lemma watch_event_unknown:
  "Type event \<notin> {kwatch_Added, kwatch_Modified, kwatch_Deleted, kwatch_Error} \<Longrightarrow>
   Object event = ServiceObject service \<Longrightarrow>
   watch_event event ss = Stop (Died UnknownEventType) (ss\<lparr>resourceVersion := ResourceVersion service\<rparr>)"
  by (simp add: watch_event_def sendUpdate_def Let_def)

lemma watch_event_frame:
  "watch_event event ss = Next ss' \<or> watch_event event ss = Stop out ss' \<Longrightarrow>
   registry_calls ss' = registry_calls ss \<and> closed ss' = closed ss"
  by (auto simp: watch_event_def sendUpdate_def send_def Let_def
      split: if_splits Object.splits prod.splits outcome.splits)

lemma watch_events_frame:
  "watch_events ch ss = (out, ss') \<Longrightarrow>
   registry_calls ss' = registry_calls ss \<and> closed ss' = closed ss"
proof (induction ch arbitrary: ss)
  case Nil
  then show ?case by simp
next
  case (Cons event ch)
  show ?case
  proof (cases "watch_event event ss")
    case (Next ss1)
    with Cons.prems have "watch_events ch ss1 = (out, ss')" by simp
    from Cons.IH[OF this] watch_event_frame[of event ss ss1] Next show ?thesis by simp
  next
    case (Stop out1 ss1)
    with Cons.prems have "ss1 = ss'" by simp
    with watch_event_frame[of event ss ss' out1] Stop show ?thesis by simp
  qed
qed

lemma watchLoop_closed:
  "watchLoop svcWatcher ss r = (out, ss', r') \<Longrightarrow>
   closed ss' = (out = Returned \<or> closed ss)"
  by (auto simp: watchLoop_def list_services_def close_updates_def called_def send_def
      split: prod.splits sum.splits if_splits outcome.splits dest!: watch_events_frame)

lemma startWatching_calls:
  "startWatching watcher r = (out, ss, r') \<Longrightarrow>
   registry_calls ss = [ListCall None] \<or> (\<exists>v. registry_calls ss = [ListCall (Some v), WatchCall v])"
  by (auto simp: startWatching_def new_session_def watchLoop_def list_services_def
      close_updates_def called_def send_def
      split: prod.splits sum.splits if_splits outcome.splits dest!: watch_events_frame)

section \<open>Further properties of the operations\<close>

lemma watchOnce_session:
  "watchOnce fl lb etcdClient kubeClient (p, r) = (out, ss, st') \<Longrightarrow>
   ss = fst (snd (startWatching kubeClient r))"
  by (auto simp: watchOnce_def split: prod.splits outcome.splits)

lemma startWatching_session_calls:
  "registry_calls (fst (snd (startWatching watcher r))) = [ListCall None] \<or>
   (\<exists>v. registry_calls (fst (snd (startWatching watcher r))) = [ListCall (Some v), WatchCall v])"
  using startWatching_calls[of watcher r "fst (startWatching watcher r)"
      "fst (snd (startWatching watcher r))" "snd (snd (startWatching watcher r))"]
  by simp

lemma main_loop_sessions:
  "\<forall>ss \<in> set (fst (main_loop fl lb etcdClient kubeClient n st)).
     (\<exists>r. ss = fst (snd (watchLoop kubeClient new_session r))) \<and>
     (registry_calls ss = [ListCall None] \<or>
      (\<exists>v. registry_calls ss = [ListCall (Some v), WatchCall v]))"
proof (induction n arbitrary: st)
  case 0
  show ?case by simp
next
  case (Suc n)
  obtain p r where st: "st = (p, r)" by (cases st)
  obtain out ss st' where w: "watchOnce fl lb etcdClient kubeClient (p, r) = (out, ss, st')"
    by (cases "watchOnce fl lb etcdClient kubeClient (p, r)")
  have ss: "ss = fst (snd (startWatching kubeClient r))"
    using w by (rule watchOnce_session)
  have good: "(\<exists>r. ss = fst (snd (watchLoop kubeClient new_session r))) \<and>
     (registry_calls ss = [ListCall None] \<or>
      (\<exists>v. registry_calls ss = [ListCall (Some v), WatchCall v]))"
    unfolding ss using startWatching_session_calls[of kubeClient r]
    by (auto simp: startWatching_def)
  show ?case
  proof (cases out)
    case Returned
    then show ?thesis
      using good Suc.IH[of st'] w st by (auto split: prod.splits)
  next
    case (Died x)
    then show ?thesis using good w st by simp
  qed
qed

lemma addDNS_headless: "\<not> IsServiceIPSet lb s \<Longrightarrow> addDNS lb record s etcdClient w = (None, 0, w)"
  by (simp add: addDNS_def)

lemma mutateEtcdOrDie_noop:
  assumes "mutator (env p) = (None, 0, env p)"
  shows "env (snd (mutateEtcdOrDie fl mutator p)) = env p"
    and "0 < etcd_mutation_timeout fl \<Longrightarrow>
         mutateEtcdOrDie fl mutator p = (Returned, p\<lparr>actions := actions p @ [Invoked None]\<rparr>)"
proof -
  let ?T = "time_After (etcd_mutation_timeout fl) (clock p)"
  have ok: "clock p < ?T \<Longrightarrow>
      mutate_loop ?T mutator p = (Returned, p\<lparr>actions := actions p @ [Invoked None]\<rparr>)"
    using assms mutate_loop_success[of p ?T mutator] by (simp add: invoke_def)
  show "env (snd (mutateEtcdOrDie fl mutator p)) = env p"
  proof (cases "clock p < ?T")
    case True
    with ok show ?thesis by (simp add: mutateEtcdOrDie_def)
  next
    case False
    then show ?thesis by (simp add: mutateEtcdOrDie_def mutate_loop_expired)
  qed
  show "mutateEtcdOrDie fl mutator p = (Returned, p\<lparr>actions := actions p @ [Invoked None]\<rparr>)"
    if "0 < etcd_mutation_timeout fl"
    using that ok by (simp add: mutateEtcdOrDie_def time_After_def)
qed

lemma fst_removeDNS:
  "fst (removeDNS lb record etcdClient w) = fst (etcd_Delete etcdClient (Path lb record) True (etcd w))"
  by (simp add: removeDNS_def split: prod.splits)

lemma etcd_removeDNS:
  "etcd (snd (snd (removeDNS lb record etcdClient w)))
     = snd (snd (etcd_Delete etcdClient (Path lb record) True (etcd w)))"
  by (simp add: removeDNS_def split: prod.splits)

lemma handle_update_remove_one:
  "handle_update fl lb etcdClient \<lparr>Services = [s], Op = RemoveService\<rparr> p =
     mutateEtcdOrDie fl (remove_mutator fl lb etcdClient s) p"
  by (simp add: handle_update_def split: prod.splits outcome.splits)

lemma mutateEtcdOrDie_first_attempt:
  assumes "0 < etcd_mutation_timeout fl" and "fst (mutator (env p)) = None"
  shows "mutateEtcdOrDie fl mutator p = (Returned, snd (invoke mutator p))"
  using assms mutate_loop_success[of p "time_After (etcd_mutation_timeout fl) (clock p)" mutator]
  by (simp add: mutateEtcdOrDie_def time_After_def)

lemma kv_delete_absent:
  "s key = None \<Longrightarrow>
   etcd_Delete kv_client key recursive s = (Some (Err ''100: Key not found''), 1000000, s)"
  by (simp add: kv_client_def)

lemma kv_delete_present:
  "s key = Some v \<Longrightarrow> etcd_Delete kv_client key recursive s = (None, 1000000, s(key := None))"
  by (simp add: kv_client_def)

lemma invoke_remove_example:
  "invoke (remove_mutator cluster_flags example_libs kv_client example_service) (proc0 recorded_world)
    = (None,
       \<lparr>clock = 1000000, actions = [Invoked None],
        env = \<lparr>etcd = Map.empty, calls = [DeleteCall example_key True]\<rparr>\<rparr>)"
  by (simp add: invoke_def remove_mutator_def removeDNS_def proc0_def recorded_world_def
      example_key_def kv_delete_present)

lemma token_history_sorted:
  fixes ver :: "string \<Rightarrow> 'a::linorder"
  assumes "sorted (map ver (resourceVersion ss # event_versions ch))"
  shows "sorted (map ver (resourceVersion ss # token_history ch ss))
       \<and> set (token_history ch ss) \<subseteq> insert (resourceVersion ss) (set (event_versions ch))"
  using assms
proof (induction ch arbitrary: ss)
  case Nil
  show ?case by simp
next
  case (Cons event ch)
  show ?case
  proof (cases "Type event \<noteq> kwatch_Error \<and> (\<exists>service. Object event = ServiceObject service)")
    case True
    then obtain service where ev: "Type event \<noteq> kwatch_Error" "Object event = ServiceObject service"
      by blast
    let ?v = "ResourceVersion service"
    from Cons.prems ev have le: "ver (resourceVersion ss) \<le> ver ?v"
      and rest: "sorted (map ver (?v # event_versions ch))"
      by simp_all
    show ?thesis
    proof (cases "watch_event event ss")
      case (Next ss1)
      then have tok: "resourceVersion ss1 = ?v"
        using ev sendUpdate_token[of event service ss]
        by (auto simp: watch_event_def split: prod.splits outcome.splits)
      from Cons.IH[of ss1] rest tok
      have ih: "sorted (map ver (?v # token_history ch ss1))"
        "set (token_history ch ss1) \<subseteq> insert ?v (set (event_versions ch))" by simp_all
      from ih(1) le have "sorted (map ver (resourceVersion ss # ?v # token_history ch ss1))"
        by auto
      then show ?thesis using Next tok ih(2) ev by auto
    next
      case (Stop out ss1)
      then have tok: "resourceVersion ss1 = ?v"
        using ev sendUpdate_token[of event service ss]
        by (auto simp: watch_event_def split: prod.splits outcome.splits)
      then show ?thesis using Stop le ev by simp
    qed
  next
    case False
    then have vs: "event_versions (event # ch) = event_versions ch"
      by (cases "Object event") auto
    show ?thesis
    proof (cases "Type event = kwatch_Error")
      case True
      then obtain out where "watch_event event ss = Stop out ss"
        by (cases "Object event") (simp_all add: watch_event_def)
      then show ?thesis by simp
    next
      case no_error: False
      with False have "\<forall>service. Object event \<noteq> ServiceObject service" by simp
      with no_error have skip: "watch_event event ss = Next ss" by (rule watch_event_skip)
      from Cons.IH[of ss] Cons.prems vs
      have "sorted (map ver (resourceVersion ss # token_history ch ss))"
        "set (token_history ch ss) \<subseteq> insert (resourceVersion ss) (set (event_versions ch))"
        by simp_all
      then show ?thesis using skip vs by auto
    qed
  qed
qed

lemma token_after_service_event:
  "Type event \<noteq> kwatch_Error \<Longrightarrow> Object event = ServiceObject service \<Longrightarrow>
   hd (token_history (event # ch) ss) = ResourceVersion service"
  by (simp add: watch_event_def sendUpdate_def send_def Let_def)

lemma token_after_other_event:
  "Type event = kwatch_Error \<or> (\<forall>service. Object event \<noteq> ServiceObject service) \<Longrightarrow>
   hd (token_history (event # ch) ss) = resourceVersion ss"
  by (cases "Object event") (auto simp: watch_event_def)

lemma token_history_service_events:
  "\<forall>event \<in> set ch. Type event \<in> {kwatch_Added, kwatch_Modified, kwatch_Deleted} \<and>
      (\<exists>service. Object event = ServiceObject service) \<Longrightarrow>
   token_history ch ss = event_versions ch"
proof (induction ch arbitrary: ss)
  case Nil
  show ?case by simp
next
  case (Cons event ch)
  then obtain service where ev: "Object event = ServiceObject service"
    and ty: "Type event \<in> {kwatch_Added, kwatch_Modified, kwatch_Deleted}" by auto
  from ty have ne: "Type event \<noteq> kwatch_Error"
    by (auto simp: kwatch_Added_def kwatch_Modified_def kwatch_Deleted_def kwatch_Error_def)
  from ty obtain ss' where nxt: "watch_event event ss = Next ss'"
    using ev ne
    by (auto simp: watch_event_def sendUpdate_def Let_def kwatch_Added_def kwatch_Modified_def
        kwatch_Deleted_def)
  then have tok: "resourceVersion ss' = ResourceVersion service"
    using ev ne sendUpdate_token[of event service ss]
    by (auto simp: watch_event_def split: prod.splits outcome.splits)
  have "token_history ch ss' = event_versions ch"
    using Cons.prems by (intro Cons.IH) simp
  then show ?case using nxt tok ev ne by simp
qed

lemma final_token:
  "resourceVersion (snd (watch_events ch ss)) = last (resourceVersion ss # token_history ch ss)"
proof (induction ch arbitrary: ss)
  case Nil
  show ?case by simp
next
  case (Cons event ch)
  show ?case
  proof (cases "watch_event event ss")
    case (Next ss')
    then show ?thesis using Cons.IH[of ss'] by simp
  next
    case (Stop out ss')
    then show ?thesis by simp
  qed
qed

section \<open>The claims\<close>

subsection \<open>Claim C1\<close>

text \<open>
  Claim C1, as stated, fails.  The claim: for every record key, handling \<^verbatim>\<open>Remove\<close> twice
  in a row is idempotent; the second delete (\<^verbatim>\<open>removeDNS\<close> run through
  \<^verbatim>\<open>mutateEtcdOrDie\<close>) succeeds although no record is left under the key.
  \<^verbatim>\<open>removeDNS\<close> returns whatever \<^verbatim>\<open>etcdClient.Delete\<close> returns and looks at no error
  code.  With a client whose \<^verbatim>\<open>Delete\<close> reports a missing key as an error, the first
  removal of the example service returns and leaves no record, and the second one fails
  on every attempt until the deadline of ten seconds, where the process is terminated.
\<close>

theorem C1_second_remove_counterexample:
  "fst (handle_update cluster_flags example_libs kv_client remove_example (proc0 recorded_world))
     = Returned
   \<and> etcd (env (snd (handle_update cluster_flags example_libs kv_client remove_example
                       (proc0 recorded_world)))) example_key = None
   \<and> fst (handle_update cluster_flags example_libs kv_client remove_example
            (snd (handle_update cluster_flags example_libs kv_client remove_example
                    (proc0 recorded_world))))
     = Died MutateTimeout"
proof -
  let ?m = "remove_mutator cluster_flags example_libs kv_client example_service"
  let ?p1 = "\<lparr>clock = 1000000, actions = [Invoked None],
              env = \<lparr>etcd = Map.empty, calls = [DeleteCall example_key True]\<rparr>\<rparr>
             :: (string \<rightharpoonup> string) world proc"
  have pos: "0 < etcd_mutation_timeout cluster_flags"
    by (simp add: cluster_flags_def default_flags_def Second_def Millisecond_def)
  have "fst (?m (env (proc0 recorded_world))) = None"
    using invoke_remove_example by (simp add: fst_invoke[symmetric])
  with pos have first: "mutateEtcdOrDie cluster_flags ?m (proc0 recorded_world) = (Returned, ?p1)"
    using mutateEtcdOrDie_first_attempt[of cluster_flags ?m "proc0 recorded_world"]
    by (simp add: invoke_remove_example)
  have fails: "\<forall>w. etcd w example_key = None \<longrightarrow>
      fst (?m w) \<noteq> None \<and> etcd (snd (snd (?m w))) example_key = None"
    by (simp add: remove_mutator_def fst_removeDNS etcd_removeDNS kv_delete_absent
        example_key_def)
  have "fst (mutate_loop (time_After (etcd_mutation_timeout cluster_flags) (clock ?p1)) ?m ?p1)
      = Died MutateTimeout"
    using mutate_loop_never_succeeds[of "\<lambda>w. etcd w example_key = None" ?p1 ?m] fails
    by simp
  then have second: "fst (mutateEtcdOrDie cluster_flags ?m ?p1) = Died MutateTimeout"
    by (simp add: mutateEtcdOrDie_def)
  show ?thesis
    using first second
    by (simp add: remove_example_def handle_update_remove_one)
qed

text \<open>
  Claim C1, amended.  \<^verbatim>\<open>removeDNS\<close> returns the error of the client's \<^verbatim>\<open>Delete\<close> on the
  path of the record, unchanged.  Handling a \<^verbatim>\<open>Remove\<close> of one service therefore returns
  normally, after one invocation, when the deadline is positive and \<^verbatim>\<open>Delete\<close> reports
  no error; and it terminates the process at the deadline when \<^verbatim>\<open>Delete\<close> reports an
  error for as long as the record is absent (\<open>absent\<close> is any property of the store that
  such a \<^verbatim>\<open>Delete\<close> preserves).  Whether a second removal succeeds is decided by the
  store client alone.
\<close>

theorem C1_remove_returns_what_delete_returns:
  "fst (removeDNS lb record etcdClient w)
     = fst (etcd_Delete etcdClient (Path lb record) True (etcd w))
   \<and> (0 < etcd_mutation_timeout fl \<and>
       fst (etcd_Delete etcdClient
             (Path lb (buildNameString (Name s) (Namespace s) (domain fl))) True (etcd (env p))) = None
       \<longrightarrow> fst (handle_update fl lb etcdClient \<lparr>Services = [s], Op = RemoveService\<rparr> p) = Returned
         \<and> invocations (actions (snd (handle_update fl lb etcdClient
                                        \<lparr>Services = [s], Op = RemoveService\<rparr> p)))
             = invocations (actions p) + 1)
   \<and> (absent (etcd (env p)) \<and>
       (\<forall>st. absent st \<longrightarrow>
          fst (etcd_Delete etcdClient
                (Path lb (buildNameString (Name s) (Namespace s) (domain fl))) True st) \<noteq> None \<and>
          absent (snd (snd (etcd_Delete etcdClient
                (Path lb (buildNameString (Name s) (Namespace s) (domain fl))) True st))))
       \<longrightarrow> fst (handle_update fl lb etcdClient \<lparr>Services = [s], Op = RemoveService\<rparr> p)
             = Died MutateTimeout)"
proof (intro conjI impI)
  show "fst (removeDNS lb record etcdClient w)
     = fst (etcd_Delete etcdClient (Path lb record) True (etcd w))"
    by (rule fst_removeDNS)
next
  let ?m = "remove_mutator fl lb etcdClient s"
  assume a: "0 < etcd_mutation_timeout fl \<and>
       fst (etcd_Delete etcdClient
             (Path lb (buildNameString (Name s) (Namespace s) (domain fl))) True (etcd (env p))) = None"
  then have ok: "fst (?m (env p)) = None"
    by (simp add: remove_mutator_def fst_removeDNS)
  with a have res: "mutateEtcdOrDie fl ?m p = (Returned, snd (invoke ?m p))"
    by (intro mutateEtcdOrDie_first_attempt) simp_all
  show "fst (handle_update fl lb etcdClient \<lparr>Services = [s], Op = RemoveService\<rparr> p) = Returned"
    by (simp add: handle_update_remove_one res)
  show "invocations (actions (snd (handle_update fl lb etcdClient
                                        \<lparr>Services = [s], Op = RemoveService\<rparr> p)))
             = invocations (actions p) + 1"
    by (simp add: handle_update_remove_one res actions_invoke invocations_append)
       (simp add: invocations_def)
next
  let ?m = "remove_mutator fl lb etcdClient s"
  let ?key = "Path lb (buildNameString (Name s) (Namespace s) (domain fl))"
  assume b: "absent (etcd (env p)) \<and>
       (\<forall>st. absent st \<longrightarrow>
          fst (etcd_Delete etcdClient ?key True st) \<noteq> None \<and>
          absent (snd (snd (etcd_Delete etcdClient ?key True st))))"
  have "\<forall>w. absent (etcd w) \<longrightarrow> fst (?m w) \<noteq> None \<and> absent (etcd (snd (snd (?m w))))"
    using b by (simp add: remove_mutator_def fst_removeDNS etcd_removeDNS)
  with b have "fst (mutate_loop (time_After (etcd_mutation_timeout fl) (clock p)) ?m p)
      = Died MutateTimeout"
    using mutate_loop_never_succeeds[of "\<lambda>w. absent (etcd w)" p ?m] by simp
  then show "fst (handle_update fl lb etcdClient \<lparr>Services = [s], Op = RemoveService\<rparr> p)
             = Died MutateTimeout"
    by (simp add: handle_update_remove_one mutateEtcdOrDie_def)
qed

text \<open>
  The amended claim C1 at the example service: on the empty store \<^verbatim>\<open>removeDNS\<close> returns
  the client's error; the removal returns after one invocation when the record is
  there, and ends the process when it is not.
\<close>

theorem C1_remove_returns_what_delete_returns_witness:
  "fst (removeDNS example_libs ''a.default.cluster.local.'' kv_client empty_world)
     = Some (Err ''100: Key not found'')
   \<and> fst (handle_update cluster_flags example_libs kv_client
            \<lparr>Services = [example_service], Op = RemoveService\<rparr> (proc0 recorded_world)) = Returned
   \<and> invocations (actions (snd (handle_update cluster_flags example_libs kv_client
            \<lparr>Services = [example_service], Op = RemoveService\<rparr> (proc0 recorded_world)))) = 1
   \<and> fst (handle_update cluster_flags example_libs kv_client
            \<lparr>Services = [example_service], Op = RemoveService\<rparr> (proc0 empty_world))
       = Died MutateTimeout"
  using C1_remove_returns_what_delete_returns
    [of example_libs "''a.default.cluster.local.''" kv_client empty_world cluster_flags
        example_service "proc0 recorded_world" "\<lambda>st. True"]
    C1_remove_returns_what_delete_returns
    [of example_libs "''a.default.cluster.local.''" kv_client empty_world cluster_flags
        example_service "proc0 empty_world" "\<lambda>st. st example_key = None"]
  by (simp add: kv_delete_absent kv_delete_present empty_world_def recorded_world_def proc0_def
      example_key_def cluster_flags_def default_flags_def Second_def Millisecond_def
      invocations_def)

subsection \<open>Claim C2\<close>

text \<open>
  Claim C2.  When every invocation of the mutator that \<^verbatim>\<open>mutateEtcdOrDie\<close> makes returns
  an error, \<^verbatim>\<open>mutateEtcdOrDie\<close> does not return normally: it ends the process through
  \<^verbatim>\<open>log.Fatalf\<close>, at a moment when the deadline \<^verbatim>\<open>etcd_mutation_timeout\<close> (counted from
  the call) has elapsed.  It does so after finitely many invocations: \<open>n\<close> of them, where
  \<open>n\<close> times the delay of 50 milliseconds stays below the timeout plus one delay.  The
  function \<open>mutate_loop\<close> is total, so the call cannot hang while the mutator returns.
\<close>

theorem C2_always_failing_mutation_dies:
  assumes "\<forall>n. fst (mutator (env (attempt_start mutator n p))) \<noteq> None"
  shows "\<exists>n. mutateEtcdOrDie fl mutator p = (Died MutateTimeout, attempt_start mutator n p)
           \<and> clock p + nat (etcd_mutation_timeout fl) \<le> clock (attempt_start mutator n p)
           \<and> invocations (actions (attempt_start mutator n p)) = invocations (actions p) + n
           \<and> n * nat delay < nat (etcd_mutation_timeout fl) + nat delay"
proof -
  let ?T = "time_After (etcd_mutation_timeout fl) (clock p)"
  from mutate_loop_cases[of mutator p ?T] assms
  obtain n where run: "\<forall>i<n. clock (attempt_start mutator i p) < ?T"
    and late: "?T \<le> clock (attempt_start mutator n p)"
    and res: "mutate_loop ?T mutator p = (Died MutateTimeout, attempt_start mutator n p)"
    by (auto split: if_splits)
  from actions_attempt_start[of n mutator p] assms
  obtain errs where errs: "length errs = n"
    "actions (attempt_start mutator n p) =
       actions p @ concat (map (\<lambda>e. [Invoked (Some e), Slept delay]) errs)"
    by auto
  have count: "invocations (actions (attempt_start mutator n p)) = invocations (actions p) + n"
    by (simp add: errs invocations_append invocations_retries)
  have bound: "n * nat delay < nat (etcd_mutation_timeout fl) + nat delay"
  proof (cases n)
    case 0
    then show ?thesis by (simp add: delay_def Millisecond_def)
  next
    case (Suc k)
    have "clock p + k * nat delay \<le> clock (attempt_start mutator k p)"
      by (rule clock_attempt_start_lower)
    also have "\<dots> < ?T" using run Suc by simp
    finally show ?thesis using Suc by (simp add: time_After_def)
  qed
  show ?thesis
    using res late count bound by (auto simp: mutateEtcdOrDie_def time_After_def)
qed

text \<open>
  Claim C2 at a mutator that always fails, with the default timeout of ten seconds.
\<close>

theorem C2_always_failing_mutation_dies_witness:
  "\<exists>n. mutateEtcdOrDie default_flags broken (proc0 0) = (Died MutateTimeout, attempt_start broken n (proc0 0))
           \<and> clock (proc0 (0::nat)) + nat (etcd_mutation_timeout default_flags) \<le> clock (attempt_start broken n (proc0 0))
           \<and> invocations (actions (attempt_start broken n (proc0 0))) = invocations (actions (proc0 (0::nat))) + n
           \<and> n * nat delay < nat (etcd_mutation_timeout default_flags) + nat delay"
  using C2_always_failing_mutation_dies[of broken "proc0 0" default_flags]
  by (simp add: broken_def)

subsection \<open>Claim C3\<close>

text \<open>
  Claim C3.  For a service whose IP is set, the name that \<^verbatim>\<open>watchOnce\<close> builds is
  \<^verbatim>\<open><name>.<namespace>.<domain>.\<close> with the trailing dot, and \<^verbatim>\<open>addDNS\<close> makes exactly one
  call on the store: \<^verbatim>\<open>Set\<close> of the path of that name to the encoding \<open>b\<close> of the record
  with the service's portal IP as host, the service's port as port, priority 10, weight
  10 and ttl 30, with no expiry.  The error and the store it leaves are those of that
  call.  The name of the service \<^verbatim>\<open>a\<close> in namespace \<^verbatim>\<open>default\<close> under the domain
  \<^verbatim>\<open>cluster.local\<close> is \<^verbatim>\<open>a.default.cluster.local.\<close>
\<close>

theorem C3_projected_key_and_record:
  assumes "IsServiceIPSet lb s"
    and "Marshal lb \<lparr>Host = Spec_PortalIP s, Port = Spec_Port s,
                     Priority = 10, Weight = 10, Ttl = 30\<rparr> = Inr b"
  shows "buildNameString (Name s) (Namespace s) (domain fl)
           = Name s @ ''.'' @ Namespace s @ ''.'' @ domain fl @ ''.''
       \<and> calls (snd (snd (add_mutator fl lb etcdClient s w)))
           = calls w @ [SetCall (Path lb (Name s @ ''.'' @ Namespace s @ ''.'' @ domain fl @ ''.'')) b 0]
       \<and> fst (add_mutator fl lb etcdClient s w)
           = fst (etcd_Set etcdClient
                   (Path lb (Name s @ ''.'' @ Namespace s @ ''.'' @ domain fl @ ''.'')) b 0 (etcd w))
       \<and> etcd (snd (snd (add_mutator fl lb etcdClient s w)))
           = snd (snd (etcd_Set etcdClient
                   (Path lb (Name s @ ''.'' @ Namespace s @ ''.'' @ domain fl @ ''.'')) b 0 (etcd w)))
       \<and> buildNameString ''a'' ''default'' ''cluster.local'' = ''a.default.cluster.local.''"
  using assms
  by (simp add: add_mutator_def addDNS_def buildNameString_def Let_def split: prod.splits)

text \<open>
  Claim C3 at the example of the specification: the service \<^verbatim>\<open>a\<close> in namespace
  \<^verbatim>\<open>default\<close>, address \<^verbatim>\<open>10.0.0.5\<close>, port 80, domain \<^verbatim>\<open>cluster.local\<close>.  The store
  receives the record with host \<^verbatim>\<open>10.0.0.5\<close>, port 80, priority 10, weight 10 and ttl 30
  under the path of \<^verbatim>\<open>a.default.cluster.local.\<close>
\<close>

theorem C3_projected_key_and_record_witness:
  "buildNameString ''a'' ''default'' ''cluster.local'' = ''a.default.cluster.local.''
   \<and> calls (snd (snd (add_mutator cluster_flags example_libs kv_client example_service empty_world)))
       = [SetCall ''/skydns/local/cluster/default/a''
            (json_Service \<lparr>Host = ''10.0.0.5'', Port = 80, Priority = 10, Weight = 10, Ttl = 30\<rparr>) 0]
   \<and> fst (add_mutator cluster_flags example_libs kv_client example_service empty_world) = None
   \<and> etcd (snd (snd (add_mutator cluster_flags example_libs kv_client example_service empty_world)))
        ''/skydns/local/cluster/default/a''
       = Some (json_Service \<lparr>Host = ''10.0.0.5'', Port = 80, Priority = 10, Weight = 10, Ttl = 30\<rparr>)"
  using C3_projected_key_and_record
    [of example_libs example_service
        "json_Service \<lparr>Host = ''10.0.0.5'', Port = 80, Priority = 10, Weight = 10, Ttl = 30\<rparr>"
        cluster_flags kv_client empty_world]
  by (simp add: example_libs_def example_service_def cluster_flags_def default_flags_def
      kv_client_def empty_world_def skydns_path_def)

subsection \<open>Claim C4\<close>

text \<open>
  Claim C4.  For a service whose IP is not set, \<^verbatim>\<open>addDNS\<close> returns no error, takes no
  time and leaves the world as it is: the store is unchanged and no call is made on the
  client.  Handling the service through \<^verbatim>\<open>mutateEtcdOrDie\<close> leaves the world unchanged in
  every case, and with a positive timeout the handling of an \<^verbatim>\<open>AddService\<close> or a
  \<^verbatim>\<open>SetServices\<close> update for it returns after a single successful invocation.  (With a
  timeout of zero or less \<^verbatim>\<open>mutateEtcdOrDie\<close> ends the process before any invocation,
  for every mutator; that is claim C10.)
\<close>

theorem C4_headless_service_is_skipped:
  assumes "\<not> IsServiceIPSet lb s"
  shows "addDNS lb record s etcdClient w = (None, 0, w)
       \<and> env (snd (mutateEtcdOrDie fl (add_mutator fl lb etcdClient s) p)) = env p
       \<and> (0 < etcd_mutation_timeout fl \<longrightarrow>
            mutateEtcdOrDie fl (add_mutator fl lb etcdClient s) p =
              (Returned, p\<lparr>actions := actions p @ [Invoked None]\<rparr>)
          \<and> handle_update fl lb etcdClient \<lparr>Services = [s], Op = AddService\<rparr> p =
              (Returned, p\<lparr>actions := actions p @ [Invoked None]\<rparr>)
          \<and> handle_update fl lb etcdClient \<lparr>Services = [s], Op = SetServices\<rparr> p =
              (Returned, p\<lparr>actions := actions p @ [Invoked None]\<rparr>))"
proof -
  have noop: "add_mutator fl lb etcdClient s (env p) = (None, 0, env p)"
    using assms by (simp add: add_mutator_def addDNS_headless)
  show ?thesis
    using assms noop mutateEtcdOrDie_noop[of "add_mutator fl lb etcdClient s" p fl]
    by (simp add: addDNS_headless handle_update_def)
qed

text \<open>
  Claim C4 at a service whose portal IP is \<^verbatim>\<open>None\<close>, on a store that holds a record.
\<close>

theorem C4_headless_service_is_skipped_witness:
  "addDNS example_libs ''h.default.cluster.local.'' headless_service kv_client recorded_world
     = (None, 0, recorded_world)
   \<and> handle_update cluster_flags example_libs kv_client
       \<lparr>Services = [headless_service], Op = AddService\<rparr> (proc0 recorded_world) =
       (Returned, \<lparr>clock = 0, actions = [Invoked None], env = recorded_world\<rparr>)
   \<and> handle_update cluster_flags example_libs kv_client
       \<lparr>Services = [headless_service], Op = SetServices\<rparr> (proc0 recorded_world) =
       (Returned, \<lparr>clock = 0, actions = [Invoked None], env = recorded_world\<rparr>)"
  using C4_headless_service_is_skipped
    [of example_libs headless_service "''h.default.cluster.local.''" kv_client recorded_world
        cluster_flags "proc0 recorded_world"]
  by (simp add: example_libs_def headless_service_def cluster_flags_def default_flags_def
      Second_def Millisecond_def proc0_def)

subsection \<open>Claim C5\<close>

text \<open>
  Claim C5, as stated, fails in its last part.  The claim: every registry event whose
  type is not one of \<^verbatim>\<open>Added\<close>, \<^verbatim>\<open>Modified\<close>, \<^verbatim>\<open>Deleted\<close>, \<^verbatim>\<open>Error\<close> aborts the process.
  The check of the type is the \<^verbatim>\<open>default\<close> case of \<^verbatim>\<open>sendUpdate\<close>, which \<^verbatim>\<open>watchLoop\<close>
  calls only for an event whose object is a service.  An event of an unknown type whose
  object is something else passes both \<^verbatim>\<open>if\<close> statements of the loop: the loop goes on,
  and here it returns when the channel is closed.
\<close>

theorem C5_unknown_event_type_counterexample:
  "Type \<lparr>Type = ''BOOKMARK'', Object = OtherObject ''*api.Pod''\<rparr>
     \<notin> {kwatch_Added, kwatch_Modified, kwatch_Deleted, kwatch_Error}
   \<and> watch_event \<lparr>Type = ''BOOKMARK'', Object = OtherObject ''*api.Pod''\<rparr> new_session
       = Next new_session
   \<and> watch_events [\<lparr>Type = ''BOOKMARK'', Object = OtherObject ''*api.Pod''\<rparr>] new_session
       = (Returned, new_session)"
  by (simp add: watch_event_def kwatch_Added_def kwatch_Modified_def kwatch_Deleted_def
      kwatch_Error_def)

text \<open>
  Claim C5, amended.  In the loop of \<^verbatim>\<open>watchLoop\<close>, whatever the rest \<open>ch\<close> of the channel
  holds: an event of type \<^verbatim>\<open>Error\<close> whose object is a status makes the function return,
  with the session as it was; an event of type \<^verbatim>\<open>Error\<close> whose object is not a status
  ends the process; an event whose type is none of the four known ones and whose object
  is a service ends the process, after the token has been set to the version of that
  service.  \<^verbatim>\<open>watchLoop\<close> closes the channel of updates exactly when it returns, and not
  when the process ends.  (An event of an unknown type whose object is not a service is
  skipped: claim C9.)
\<close>

theorem C5_error_events:
  "(Type event = kwatch_Error \<and> Object event = StatusObject status
      \<longrightarrow> watch_events (event # ch) ss = (Returned, ss))
   \<and> (Type event = kwatch_Error \<and> (\<forall>status. Object event \<noteq> StatusObject status)
      \<longrightarrow> watch_events (event # ch) ss = (Died UnexpectedError, ss))
   \<and> (Type event \<notin> {kwatch_Added, kwatch_Modified, kwatch_Deleted, kwatch_Error}
        \<and> Object event = ServiceObject service
      \<longrightarrow> watch_events (event # ch) ss =
            (Died UnknownEventType, ss\<lparr>resourceVersion := ResourceVersion service\<rparr>))
   \<and> (watchLoop svcWatcher ss r = (out, ss', r')
      \<longrightarrow> closed ss' = (out = Returned \<or> closed ss))"
  by (simp add: watch_event_status watch_event_unexpected watch_event_unknown watchLoop_closed)

text \<open>
  The amended claim C5 at three events, and at a session on the example registry, whose
  watch delivers an error with a status: the session returns and the channel is closed.
\<close>

theorem C5_error_events_witness:
  "watch_events [\<lparr>Type = kwatch_Error, Object = StatusObject (Status ''410 Gone'')\<rparr>,
                 \<lparr>Type = kwatch_Added, Object = ServiceObject example_service\<rparr>] new_session
     = (Returned, new_session)
   \<and> watch_events [\<lparr>Type = kwatch_Error, Object = OtherObject ''*errors.errorString''\<rparr>] new_session
     = (Died UnexpectedError, new_session)
   \<and> watch_events [\<lparr>Type = ''BOOKMARK'', Object = ServiceObject example_service\<rparr>] new_session
     = (Died UnknownEventType, new_session\<lparr>resourceVersion := ''7''\<rparr>)
   \<and> closed (fst (snd (watchLoop example_registry new_session 0)))
   \<and> fst (watchLoop example_registry new_session 0) = Returned"
  using C5_error_events
          [of "\<lparr>Type = kwatch_Error, Object = StatusObject (Status ''410 Gone'')\<rparr>" "Status ''410 Gone''"
              "[\<lparr>Type = kwatch_Added, Object = ServiceObject example_service\<rparr>]" new_session]
        C5_error_events
          [of "\<lparr>Type = kwatch_Error, Object = OtherObject ''*errors.errorString''\<rparr>" _ "[]" new_session]
        C5_error_events
          [of "\<lparr>Type = ''BOOKMARK'', Object = ServiceObject example_service\<rparr>" _ "[]" new_session
              example_service]
        C5_error_events
          [of _ _ _ new_session _ example_registry 0 "fst (watchLoop example_registry new_session 0)"
              "fst (snd (watchLoop example_registry new_session 0))"
              "snd (snd (watchLoop example_registry new_session 0))"]
  by (simp add: kwatch_Added_def kwatch_Modified_def kwatch_Deleted_def kwatch_Error_def
      example_service_def)
     (simp add: watchLoop_def list_services_def example_registry_def new_session_def
      watch_event_def sendUpdate_def send_def called_def close_updates_def
      kwatch_Added_def kwatch_Modified_def kwatch_Deleted_def kwatch_Error_def)

subsection \<open>Claim C6\<close>

text \<open>
  Claim C6.  \<^verbatim>\<open>startWatching\<close> gives every session a new, empty token.  So in every run
  of the loop of \<^verbatim>\<open>main\<close>, whatever the registry and the store do, every session is
  \<^verbatim>\<open>watchLoop\<close> started from the empty token; its first call on the registry is a list,
  and the watch that follows, when the list succeeded, is given the version that this
  list returned, never the token of an earlier session.
\<close>

theorem C6_every_session_lists_first:
  "startWatching kubeClient r = watchLoop kubeClient new_session r
   \<and> resourceVersion new_session = []
   \<and> (\<forall>ss \<in> set (fst (main_loop fl lb etcdClient kubeClient n st)).
        (\<exists>r. ss = fst (snd (watchLoop kubeClient new_session r))) \<and>
        (registry_calls ss = [ListCall None] \<or>
         (\<exists>v. registry_calls ss = [ListCall (Some v), WatchCall v])))"
  using main_loop_sessions[of fl lb etcdClient kubeClient n st]
  by (simp add: startWatching_def new_session_def)

text \<open>
  Claim C6 at two sessions on the example registry.  The first session ends on an error
  event with its token at version 8; the second one lists again and watches from the
  listed version 7.
\<close>

theorem C6_every_session_lists_first_witness:
  "map registry_calls
     (fst (main_loop cluster_flags example_libs kv_client example_registry 2 (proc0 empty_world, 0)))
   = [[ListCall (Some ''7''), WatchCall ''7''], [ListCall (Some ''7''), WatchCall ''7'']]
   \<and> map resourceVersion
     (fst (main_loop cluster_flags example_libs kv_client example_registry 2 (proc0 empty_world, 0)))
   = [''8'', ''8'']"
  using C6_every_session_lists_first
    [of example_registry 0 cluster_flags example_libs kv_client 2 "(proc0 empty_world, 0)"]
  by (simp add: numeral_2_eq_2 watchOnce_def startWatching_def watchLoop_def list_services_def
      example_registry_def new_session_def watch_event_def sendUpdate_def send_def called_def
      close_updates_def kwatch_Added_def kwatch_Modified_def kwatch_Deleted_def kwatch_Error_def
      handle_update_def mutateEtcdOrDie_def mutate_loop_success add_mutator_def addDNS_def
      example_libs_def example_service_def kv_client_def cluster_flags_def default_flags_def
      Second_def Millisecond_def time_After_def proc0_def empty_world_def invoke_def Let_def)

subsection \<open>Claim C7\<close>

text \<open>
  Claim C7.  When the first \<open>N\<close> invocations of the mutator fail, invocation \<open>N + 1\<close>
  succeeds and is over before the deadline, \<^verbatim>\<open>mutateEtcdOrDie\<close> returns normally in the
  state that this last invocation leaves.  What it did is: \<open>N\<close> times a failed
  invocation followed by a sleep of 50 milliseconds, then the successful invocation;
  \<open>N + 1\<close> invocations in all.
\<close>

theorem C7_retries_then_succeeds:
  assumes "\<forall>i<N. fst (mutator (env (attempt_start mutator i p))) \<noteq> None"
    and "fst (mutator (env (attempt_start mutator N p))) = None"
    and "clock (snd (invoke mutator (attempt_start mutator N p)))
           < time_After (etcd_mutation_timeout fl) (clock p)"
  shows "mutateEtcdOrDie fl mutator p = (Returned, snd (invoke mutator (attempt_start mutator N p)))
       \<and> (\<exists>errs. length errs = N \<and>
            actions (snd (mutateEtcdOrDie fl mutator p)) =
              actions p @ concat (map (\<lambda>e. [Invoked (Some e), Slept (50 * Millisecond)]) errs)
                @ [Invoked None])
       \<and> invocations (actions (snd (mutateEtcdOrDie fl mutator p))) = invocations (actions p) + N + 1"
proof -
  let ?T = "time_After (etcd_mutation_timeout fl) (clock p)"
  let ?q = "attempt_start mutator N p"
  have "clock ?q < ?T"
    using clock_invoke[of ?q mutator] assms(3) by simp
  with assms(1,2) have res: "mutate_loop ?T mutator p = (Returned, snd (invoke mutator ?q))"
    by (rule mutate_loop_retry)
  from actions_attempt_start[OF assms(1)]
  obtain errs where errs: "length errs = N"
    "actions ?q = actions p @ concat (map (\<lambda>e. [Invoked (Some e), Slept delay]) errs)"
    by blast
  have acts: "actions (snd (invoke mutator ?q)) =
      actions p @ concat (map (\<lambda>e. [Invoked (Some e), Slept (50 * Millisecond)]) errs) @ [Invoked None]"
    using errs(2) assms(2) by (simp add: actions_invoke delay_def)
  have "invocations (actions (snd (invoke mutator ?q))) = invocations (actions p) + N + 1"
    unfolding acts by (simp add: invocations_append invocations_retries errs(1)) (simp add: invocations_def)
  with res acts errs(1) show ?thesis
    by (auto simp: mutateEtcdOrDie_def)
qed

text \<open>
  Claim C7 at a mutator that fails twice and then succeeds, each invocation taking one
  millisecond, with the default timeout: three invocations and two sleeps, and the call
  returns at 103 milliseconds.
\<close>

theorem C7_retries_then_succeeds_witness:
  "mutateEtcdOrDie default_flags (flaky 2 1000000) (proc0 0) =
     (Returned,
      \<lparr>clock = 103000000,
       actions = [Invoked (Some (Err ''etcd unavailable'')), Slept (50 * Millisecond),
                  Invoked (Some (Err ''etcd unavailable'')), Slept (50 * Millisecond),
                  Invoked None],
       env = 3\<rparr>)
   \<and> invocations (actions (snd (mutateEtcdOrDie default_flags (flaky 2 1000000) (proc0 0)))) = 3"
  using C7_retries_then_succeeds[of 2 "flaky 2 1000000" "proc0 0" default_flags]
  by (simp add: flaky_def proc0_def invoke_def time_Sleep_def delay_def Millisecond_def
      Second_def default_flags_def time_After_def numeral_2_eq_2 less_Suc_eq invocations_def)

subsection \<open>Claim C8\<close>

text \<open>
  Claim C8, as stated, fails.  The claim: once the token is not empty, every processed
  event advances it, the version of the event's entity being at least the version of
  the token, and it is never rolled back.  \<^verbatim>\<open>sendUpdate\<close> assigns the version of the event's
  service to the token at line 282 and compares nothing.  On a channel that delivers
  versions 12, 5 and the empty version, read from a token at version 7, the token goes
  to 12, back to 5, and then to the empty string; after the first two events the loop
  has returned with the token at 5.
\<close>

theorem C8_token_rolled_back_counterexample:
  "token_history
     [\<lparr>Type = kwatch_Modified, Object = ServiceObject (example_service\<lparr>ResourceVersion := ''12''\<rparr>)\<rparr>,
      \<lparr>Type = kwatch_Modified, Object = ServiceObject (example_service\<lparr>ResourceVersion := ''5''\<rparr>)\<rparr>,
      \<lparr>Type = kwatch_Deleted, Object = ServiceObject (example_service\<lparr>ResourceVersion := []\<rparr>)\<rparr>]
     (new_session\<lparr>resourceVersion := ''7''\<rparr>) = [''12'', ''5'', []]
   \<and> parse_version ''5'' < parse_version ''12''
   \<and> watch_events
     [\<lparr>Type = kwatch_Modified, Object = ServiceObject (example_service\<lparr>ResourceVersion := ''12''\<rparr>)\<rparr>,
      \<lparr>Type = kwatch_Modified, Object = ServiceObject (example_service\<lparr>ResourceVersion := ''5''\<rparr>)\<rparr>]
     (new_session\<lparr>resourceVersion := ''7''\<rparr>)
     = (Returned,
        new_session
          \<lparr>resourceVersion := ''5'',
           updates :=
             [\<lparr>Services = [example_service\<lparr>ResourceVersion := ''12''\<rparr>], Op = AddService\<rparr>,
              \<lparr>Services = [example_service\<lparr>ResourceVersion := ''5''\<rparr>], Op = AddService\<rparr>]\<rparr>)"
  by (simp add: parse_version_def watch_event_def sendUpdate_def send_def new_session_def
      kwatch_Added_def kwatch_Modified_def kwatch_Deleted_def kwatch_Error_def)

text \<open>
  Claim C8, amended.  In the loop of \<^verbatim>\<open>watchLoop\<close>, an event whose type is not \<^verbatim>\<open>Error\<close> and
  whose object is a service sets the token to the version of that service, whatever the
  token was; every other event leaves the token as it is.  The token at the end of the
  loop is the last of these values.  On a channel of service events of the three known
  types the values of the token are exactly the versions of the events, so that, for
  any reading \<open>ver\<close> of versions in a linear order, the token never decreases if and only
  if the versions that the registry delivers never decrease; and on any channel, if the
  delivered versions do not decrease from the token on, the token does not decrease.
\<close>

theorem C8_token_is_last_event_version:
  fixes ver :: "string \<Rightarrow> 'a::linorder"
  shows
  "(Type event \<noteq> kwatch_Error \<and> Object event = ServiceObject service
      \<longrightarrow> hd (token_history (event # ch) ss) = ResourceVersion service)
   \<and> (Type event = kwatch_Error \<or> (\<forall>service. Object event \<noteq> ServiceObject service)
      \<longrightarrow> hd (token_history (event # ch) ss) = resourceVersion ss)
   \<and> resourceVersion (snd (watch_events ch ss)) = last (resourceVersion ss # token_history ch ss)
   \<and> ((\<forall>event \<in> set ch. Type event \<in> {kwatch_Added, kwatch_Modified, kwatch_Deleted} \<and>
          (\<exists>service. Object event = ServiceObject service))
      \<longrightarrow> token_history ch ss = event_versions ch
        \<and> sorted (map ver (resourceVersion ss # token_history ch ss))
            = sorted (map ver (resourceVersion ss # event_versions ch)))
   \<and> (sorted (map ver (resourceVersion ss # event_versions ch))
      \<longrightarrow> sorted (map ver (resourceVersion ss # token_history ch ss)))"
  using token_after_service_event[of event service ch ss] token_after_other_event[of event ch ss]
    final_token[of ch ss] token_history_service_events[of ch ss]
    token_history_sorted[of ver ss ch]
  by auto

text \<open>
  The amended claim C8: a change at version 5 sets a token at 12 to 5; an event that
  carries a pod leaves it at 12; on the versions 12 and 5 read from 7 the token takes
  the values 12 and 5, which decrease; on the versions 8 and 12 read from 7 it does not
  decrease.
\<close>

theorem C8_token_is_last_event_version_witness:
  "hd (token_history
        [\<lparr>Type = kwatch_Modified, Object = ServiceObject (example_service\<lparr>ResourceVersion := ''5''\<rparr>)\<rparr>]
        (new_session\<lparr>resourceVersion := ''12''\<rparr>)) = ''5''
   \<and> hd (token_history
        [\<lparr>Type = kwatch_Added, Object = OtherObject ''*api.Pod''\<rparr>]
        (new_session\<lparr>resourceVersion := ''12''\<rparr>)) = ''12''
   \<and> token_history
        [\<lparr>Type = kwatch_Modified, Object = ServiceObject (example_service\<lparr>ResourceVersion := ''12''\<rparr>)\<rparr>,
         \<lparr>Type = kwatch_Deleted, Object = ServiceObject (example_service\<lparr>ResourceVersion := ''5''\<rparr>)\<rparr>]
        (new_session\<lparr>resourceVersion := ''7''\<rparr>) = [''12'', ''5'']
   \<and> \<not> sorted (map parse_version
        (resourceVersion (new_session\<lparr>resourceVersion := ''7''\<rparr>) #
         token_history
          [\<lparr>Type = kwatch_Modified, Object = ServiceObject (example_service\<lparr>ResourceVersion := ''12''\<rparr>)\<rparr>,
           \<lparr>Type = kwatch_Deleted, Object = ServiceObject (example_service\<lparr>ResourceVersion := ''5''\<rparr>)\<rparr>]
          (new_session\<lparr>resourceVersion := ''7''\<rparr>)))
   \<and> sorted (map parse_version
        (resourceVersion (new_session\<lparr>resourceVersion := ''7''\<rparr>) #
         token_history
          [\<lparr>Type = kwatch_Modified, Object = ServiceObject (example_service\<lparr>ResourceVersion := ''8''\<rparr>)\<rparr>,
           \<lparr>Type = kwatch_Added, Object = OtherObject ''*api.Pod''\<rparr>,
           \<lparr>Type = kwatch_Deleted, Object = ServiceObject (example_service\<lparr>ResourceVersion := ''12''\<rparr>)\<rparr>]
          (new_session\<lparr>resourceVersion := ''7''\<rparr>)))"
  using C8_token_is_last_event_version
    [of "\<lparr>Type = kwatch_Modified, Object = ServiceObject (example_service\<lparr>ResourceVersion := ''5''\<rparr>)\<rparr>"
        "example_service\<lparr>ResourceVersion := ''5''\<rparr>" "[]" "new_session\<lparr>resourceVersion := ''12''\<rparr>"
        parse_version]
    C8_token_is_last_event_version
    [of "\<lparr>Type = kwatch_Added, Object = OtherObject ''*api.Pod''\<rparr>" _ "[]"
        "new_session\<lparr>resourceVersion := ''12''\<rparr>" parse_version]
    C8_token_is_last_event_version
    [of _ _
        "[\<lparr>Type = kwatch_Modified, Object = ServiceObject (example_service\<lparr>ResourceVersion := ''12''\<rparr>)\<rparr>,
          \<lparr>Type = kwatch_Deleted, Object = ServiceObject (example_service\<lparr>ResourceVersion := ''5''\<rparr>)\<rparr>]"
        "new_session\<lparr>resourceVersion := ''7''\<rparr>" parse_version]
    C8_token_is_last_event_version
    [of _ _
        "[\<lparr>Type = kwatch_Modified, Object = ServiceObject (example_service\<lparr>ResourceVersion := ''8''\<rparr>)\<rparr>,
          \<lparr>Type = kwatch_Added, Object = OtherObject ''*api.Pod''\<rparr>,
          \<lparr>Type = kwatch_Deleted, Object = ServiceObject (example_service\<lparr>ResourceVersion := ''12''\<rparr>)\<rparr>]"
        "new_session\<lparr>resourceVersion := ''7''\<rparr>" parse_version]
  by (simp add: parse_version_def new_session_def
      kwatch_Added_def kwatch_Modified_def kwatch_Deleted_def kwatch_Error_def)

subsection \<open>Claim C9\<close>

text \<open>
  Claim C9.  An event whose type is not \<^verbatim>\<open>Error\<close> and whose object is not a service
  changes nothing: the session is as before (no update sent, token unchanged, channel
  not closed), the process lives, and the loop goes on with the next event.
\<close>

theorem C9_other_objects_are_skipped:
  assumes "Type event \<noteq> kwatch_Error"
    and "\<forall>service. Object event \<noteq> ServiceObject service"
  shows "watch_event event ss = Next ss
       \<and> watch_events (event # ch) ss = watch_events ch ss
       \<and> token_history (event # ch) ss = resourceVersion ss # token_history ch ss"
  using watch_event_skip[OF assms] by simp

text \<open>
  Claim C9 at an \<^verbatim>\<open>Added\<close> event that carries a pod, and at an event of an unknown type
  that carries a status.
\<close>

theorem C9_other_objects_are_skipped_witness:
  "watch_event \<lparr>Type = kwatch_Added, Object = OtherObject ''*api.Pod''\<rparr> new_session = Next new_session
   \<and> watch_events [\<lparr>Type = kwatch_Added, Object = OtherObject ''*api.Pod''\<rparr>] new_session
       = (Returned, new_session)
   \<and> watch_event \<lparr>Type = ''BOOKMARK'', Object = StatusObject (Status ''ok'')\<rparr> new_session = Next new_session"
  using C9_other_objects_are_skipped
          [of "\<lparr>Type = kwatch_Added, Object = OtherObject ''*api.Pod''\<rparr>" new_session "[]"]
        C9_other_objects_are_skipped
          [of "\<lparr>Type = ''BOOKMARK'', Object = StatusObject (Status ''ok'')\<rparr>" new_session "[]"]
  by (simp add: kwatch_Added_def kwatch_Error_def)

subsection \<open>Claim C10\<close>

text \<open>
  Claim C10.  The deadline is the clock at the call of \<^verbatim>\<open>mutateEtcdOrDie\<close> plus the
  timeout, fixed before the first invocation, and it is looked at only when an attempt
  is about to start.  First: if the earlier attempts failed, attempt \<open>n + 1\<close> starts
  before the deadline and succeeds, the call returns normally however long that attempt
  takes (\<open>d\<close> is not bounded), also after the deadline.  Second: if the deadline has
  elapsed when attempt \<open>n + 1\<close> is about to start, the process ends there, after exactly
  \<open>n\<close> invocations.  Third: with a timeout of zero or less the process ends with no
  invocation at all.
\<close>

theorem C10_deadline_checked_between_attempts:
  "((\<forall>i<n. fst (mutator (env (attempt_start mutator i p))) \<noteq> None) \<and>
    clock (attempt_start mutator n p) < clock p + nat (etcd_mutation_timeout fl) \<and>
    mutator (env (attempt_start mutator n p)) = (None, d, w')
    \<longrightarrow> mutateEtcdOrDie fl mutator p =
          (Returned,
           (attempt_start mutator n p)
             \<lparr>clock := clock (attempt_start mutator n p) + d,
              actions := actions (attempt_start mutator n p) @ [Invoked None],
              env := w'\<rparr>))
   \<and> ((\<forall>i<n. fst (mutator (env (attempt_start mutator i p))) \<noteq> None
             \<and> clock (attempt_start mutator i p) < clock p + nat (etcd_mutation_timeout fl)) \<and>
       clock p + nat (etcd_mutation_timeout fl) \<le> clock (attempt_start mutator n p)
       \<longrightarrow> mutateEtcdOrDie fl mutator p = (Died MutateTimeout, attempt_start mutator n p)
           \<and> invocations (actions (attempt_start mutator n p)) = invocations (actions p) + n)
   \<and> (etcd_mutation_timeout fl \<le> 0
       \<longrightarrow> mutateEtcdOrDie fl mutator p = (Died MutateTimeout, p))"
proof (intro conjI impI)
  assume a: "(\<forall>i<n. fst (mutator (env (attempt_start mutator i p))) \<noteq> None) \<and>
    clock (attempt_start mutator n p) < clock p + nat (etcd_mutation_timeout fl) \<and>
    mutator (env (attempt_start mutator n p)) = (None, d, w')"
  then have "mutate_loop (clock p + nat (etcd_mutation_timeout fl)) mutator p =
      (Returned, snd (invoke mutator (attempt_start mutator n p)))"
    by (intro mutate_loop_retry) simp_all
  then show "mutateEtcdOrDie fl mutator p =
          (Returned,
           (attempt_start mutator n p)
             \<lparr>clock := clock (attempt_start mutator n p) + d,
              actions := actions (attempt_start mutator n p) @ [Invoked None],
              env := w'\<rparr>)"
    using a by (simp add: mutateEtcdOrDie_def time_After_def invoke_def)
next
  assume b: "(\<forall>i<n. fst (mutator (env (attempt_start mutator i p))) \<noteq> None
             \<and> clock (attempt_start mutator i p) < clock p + nat (etcd_mutation_timeout fl)) \<and>
       clock p + nat (etcd_mutation_timeout fl) \<le> clock (attempt_start mutator n p)"
  then have "mutate_loop (clock p + nat (etcd_mutation_timeout fl)) mutator p =
      (Died MutateTimeout, attempt_start mutator n p)"
    by (intro mutate_loop_give_up) simp_all
  then show "mutateEtcdOrDie fl mutator p = (Died MutateTimeout, attempt_start mutator n p)"
    by (simp add: mutateEtcdOrDie_def time_After_def)
  from b have "\<forall>i<n. fst (mutator (env (attempt_start mutator i p))) \<noteq> None" by simp
  from actions_attempt_start[OF this]
  show "invocations (actions (attempt_start mutator n p)) = invocations (actions p) + n"
    by (auto simp: invocations_append invocations_retries)
next
  assume "etcd_mutation_timeout fl \<le> 0"
  then show "mutateEtcdOrDie fl mutator p = (Died MutateTimeout, p)"
    by (simp add: mutateEtcdOrDie_def time_After_def mutate_loop_expired)
qed

text \<open>
  Claim C10 with a timeout of 100 milliseconds: an attempt that starts at 99
  milliseconds and takes 49 returns normally at 148; a mutator that always fails is
  invoked twice and the process ends at 100 milliseconds; with a timeout of zero the
  process ends at once.
\<close>

theorem C10_deadline_checked_between_attempts_witness:
  "mutateEtcdOrDie short_flags (flaky 1 49000000) (proc0 0) =
     (Returned,
      \<lparr>clock = 148000000,
       actions = [Invoked (Some (Err ''etcd unavailable'')), Slept delay, Invoked None],
       env = 2\<rparr>)
   \<and> mutateEtcdOrDie short_flags broken (proc0 0) =
     (Died MutateTimeout,
      \<lparr>clock = 100000000,
       actions = [Invoked (Some (Err ''etcd unavailable'')), Slept delay,
                  Invoked (Some (Err ''etcd unavailable'')), Slept delay],
       env = 2\<rparr>)
   \<and> mutateEtcdOrDie (default_flags\<lparr>etcd_mutation_timeout := 0\<rparr>) broken (proc0 0) =
     (Died MutateTimeout, proc0 0)"
  using C10_deadline_checked_between_attempts
          [of 1 "flaky 1 49000000" "proc0 0" short_flags 49000000 2]
        C10_deadline_checked_between_attempts
          [of 2 broken "proc0 0" short_flags]
        C10_deadline_checked_between_attempts
          [of _ broken "proc0 0" "default_flags\<lparr>etcd_mutation_timeout := 0\<rparr>"]
  by (simp add: flaky_def broken_def proc0_def invoke_def time_Sleep_def delay_def Millisecond_def
      Second_def default_flags_def short_flags_def numeral_2_eq_2 less_Suc_eq invocations_def)

end
